theory Spec2Isabelle
  imports Main "HOL-Library.Char_ord" "HOL-Library.List_Lexorder" "HOL-Library.Multiset"
begin

section \<open>Habit tracker backend: data model\<close>

text \<open>
  The request handlers of \<^verbatim>\<open>main.py\<close> over a document store with the two collections
  \<^verbatim>\<open>habit\<close> and \<^verbatim>\<open>habitlog\<close>. A handler that raises \<^verbatim>\<open>HTTPException\<close> returns
  \<open>Inl\<close> of it; the store handle \<^verbatim>\<open>db\<close> is threaded through every handler, so that
  what a failing request leaves behind is part of its result.
\<close>

datatype HTTPException = HTTPException (status_code: nat) (detail: string)

type_synonym 'r response = "HTTPException + 'r"

text \<open>\<^verbatim>\<open>datetime.utcnow()\<close>: a reading of the clock, in microseconds.\<close>

type_synonym datetime = int

subsection \<open>Identifiers of the store\<close>

text \<open>
  \<^verbatim>\<open>bson.ObjectId\<close>: a string of bytes, held here as its length and the number the
  bytes spell (big endian). Every identifier the driver generates has twelve bytes.
  The constructor applied to a string takes it when it has 24 characters and
  \<^verbatim>\<open>bytes.fromhex\<close> reads it: pairs of hexadecimal digits, in either case, with ASCII
  white space skipped between the pairs; otherwise it raises. So a string of 24
  characters with white space in it gives an identifier of fewer than twelve bytes.
  A character outside ASCII is no hexadecimal digit, whether characters or bytes are
  counted. \<^verbatim>\<open>str\<close> of an identifier is two lower-case hexadecimal digits per byte.
\<close>

datatype ObjectId = ObjectId (nbytes: nat) (binary: nat)

definition hex_value :: "char \<Rightarrow> nat option" where
  "hex_value c =
     (let n = (of_char c :: nat) in
      if 48 \<le> n \<and> n \<le> 57 then Some (n - 48)
      else if 97 \<le> n \<and> n \<le> 102 then Some (n - 87)
      else if 65 \<le> n \<and> n \<le> 70 then Some (n - 55)
      else None)"

definition is_space :: "char \<Rightarrow> bool" where
  "is_space c = (let n = (of_char c :: nat) in n = 32 \<or> (9 \<le> n \<and> n \<le> 13))"

fun fromhex :: "nat \<Rightarrow> nat \<Rightarrow> string \<Rightarrow> (nat \<times> nat) option" where
  "fromhex k acc [] = Some (k, acc)"
| "fromhex k acc [c] = (if is_space c then Some (k, acc) else None)"
| "fromhex k acc (c # d # cs) =
     (if is_space c then fromhex k acc (d # cs)
      else case (hex_value c, hex_value d) of
             (Some a, Some b) \<Rightarrow> fromhex (Suc k) (256 * acc + 16 * a + b) cs
           | _ \<Rightarrow> None)"

definition ObjectId_of_str :: "string \<Rightarrow> ObjectId option" where
  "ObjectId_of_str s =
     (if length s = 24 then map_option (\<lambda>(k, n). ObjectId k n) (fromhex 0 0 s) else None)"

definition hex_digit :: "nat \<Rightarrow> char" where
  "hex_digit d = ''0123456789abcdef'' ! (d mod 16)"

fun hexlify :: "nat \<Rightarrow> nat \<Rightarrow> string" where
  "hexlify 0 n = []"
| "hexlify (Suc k) n = hexlify k (n div 256) @ [hex_digit (n div 16), hex_digit n]"

definition str_of_ObjectId :: "ObjectId \<Rightarrow> string" where
  "str_of_ObjectId i = hexlify (nbytes i) (binary i)"

text \<open>
  What the store can hold. A BSON integer has at most 64 bits: the driver raises
  \<^verbatim>\<open>OverflowError\<close> for any other, before anything is written. A BSON date counts
  milliseconds: of a clock reading in microseconds the store keeps the whole
  milliseconds.
\<close>

definition int64 :: "int \<Rightarrow> bool" where
  "int64 v \<longleftrightarrow> - (2 ^ 63) \<le> v \<and> v < 2 ^ 63"

definition bson_datetime :: "datetime \<Rightarrow> datetime" where
  "bson_datetime t = (t div 1000) * 1000"

datatype store_error = OverflowError

subsection \<open>Request and response models\<close>

record HabitIn =
  name :: string
  description :: "string option"
  color :: string
  frequency :: string
  days_of_week :: "int list option"

text \<open>\<^verbatim>\<open>class HabitOut(HabitIn)\<close> adds the field \<^verbatim>\<open>id\<close>.\<close>

record HabitOut = HabitIn +
  id_str :: string

text \<open>\<^verbatim>\<open>datetime.date\<close> and its \<^verbatim>\<open>isoformat()\<close>, \<^verbatim>\<open>YYYY-MM-DD\<close>.\<close>

datatype date = Date (year: nat) (month: nat) (day_of_month: nat)

definition digit :: "nat \<Rightarrow> char" where
  "digit d = ''0123456789'' ! (d mod 10)"

definition isoformat :: "date \<Rightarrow> string" where
  "isoformat d =
     [digit (year d div 1000), digit (year d div 100), digit (year d div 10), digit (year d)]
     @ ''-'' @ [digit (month d div 10), digit (month d)]
     @ ''-'' @ [digit (day_of_month d div 10), digit (day_of_month d)]"

text \<open>\<^verbatim>\<open>class LogIn\<close>: the fields \<^verbatim>\<open>day\<close> and \<^verbatim>\<open>value\<close> (default 1).\<close>

record LogIn =
  day :: date
  val :: int

definition LogIn_default :: "date \<Rightarrow> LogIn" where
  "LogIn_default d = \<lparr>day = d, val = 1\<rparr>"

record toggle_out =
  checked :: bool

record delete_out =
  ok :: bool

subsection \<open>Stored documents\<close>

text \<open>
  A document of \<^verbatim>\<open>habit\<close>: the dumped \<^verbatim>\<open>HabitIn\<close> fields, the two timestamps and the
  \<^verbatim>\<open>_id\<close> that the store assigns on insert.
\<close>

record habit_doc = HabitIn +
  created_at :: datetime
  updated_at :: datetime
  oid :: ObjectId

text \<open>
  A document of \<^verbatim>\<open>habitlog\<close> as \<^verbatim>\<open>toggle_log\<close> builds it (keys \<^verbatim>\<open>habit_id\<close>,
  \<^verbatim>\<open>day\<close>, \<^verbatim>\<open>value\<close>, \<^verbatim>\<open>created_at\<close>, \<^verbatim>\<open>updated_at\<close>), extended with \<^verbatim>\<open>_id\<close> in the
  store and with \<^verbatim>\<open>id\<close> in the answer of \<^verbatim>\<open>get_logs\<close>.
\<close>

record log_fields =
  habit_id :: string
  log_day :: string
  log_value :: int
  log_created_at :: datetime
  log_updated_at :: datetime

record log_doc = log_fields +
  log_oid :: ObjectId

record log_out = log_fields +
  log_id :: string

text \<open>
  The database handle: the two collections in the store's natural (insertion) order,
  and the counter from which identifiers are generated.
\<close>

record database =
  habit :: "habit_doc list"
  habitlog :: "log_doc list"
  inc :: nat

type_synonym handle = "database option"

section \<open>The store operations the handlers use\<close>

text \<open>\<^verbatim>\<open>find_one(filt)\<close>: the first document matching the filter, or \<^verbatim>\<open>None\<close>.\<close>

definition find_one :: "('a \<Rightarrow> bool) \<Rightarrow> 'a list \<Rightarrow> 'a option" where
  "find_one P xs = List.find P xs"

text \<open>\<^verbatim>\<open>find(filt)\<close>: all matching documents, in natural order.\<close>

definition find_all :: "('a \<Rightarrow> bool) \<Rightarrow> 'a list \<Rightarrow> 'a list" where
  "find_all P xs = filter P xs"

text \<open>
  \<^verbatim>\<open>delete_one(filt)\<close> removes the first matching document and reports
  \<^verbatim>\<open>deleted_count\<close>.
\<close>

fun delete_first :: "('a \<Rightarrow> bool) \<Rightarrow> 'a list \<Rightarrow> 'a list" where
  "delete_first P [] = []"
| "delete_first P (x # xs) = (if P x then xs else x # delete_first P xs)"

definition delete_one :: "('a \<Rightarrow> bool) \<Rightarrow> 'a list \<Rightarrow> nat \<times> 'a list" where
  "delete_one P xs = ((if list_ex P xs then 1 else 0), delete_first P xs)"

text \<open>\<^verbatim>\<open>delete_many(filt)\<close> removes every matching document.\<close>

definition delete_many :: "('a \<Rightarrow> bool) \<Rightarrow> 'a list \<Rightarrow> 'a list" where
  "delete_many P xs = filter (\<lambda>x. \<not> P x) xs"

text \<open>
  \<^verbatim>\<open>insert_one(doc)\<close>: the driver generates a new \<^verbatim>\<open>_id\<close> of twelve bytes and
  encodes the document, which fails on an integer of more than 64 bits and cuts the
  dates to milliseconds; the document goes to the end of the collection, and the id
  is returned as \<^verbatim>\<open>inserted_id\<close>.
\<close>

definition encodable_habit :: "HabitIn \<Rightarrow> bool" where
  "encodable_habit h = (case days_of_week h of None \<Rightarrow> True | Some ds \<Rightarrow> list_all int64 ds)"

definition insert_habit ::
  "database \<Rightarrow> HabitIn \<Rightarrow> datetime \<Rightarrow> datetime \<Rightarrow> store_error + ObjectId \<times> database" where
  "insert_habit db h c u =
     (if \<not> encodable_habit h then Inl OverflowError else
      let i = ObjectId 12 (inc db) in
      Inr (i, db\<lparr>habit := habit db @
                [\<lparr>name = name h, description = description h, color = color h,
                  frequency = frequency h, days_of_week = days_of_week h,
                  created_at = bson_datetime c, updated_at = bson_datetime u, oid = i\<rparr>],
              inc := Suc (inc db)\<rparr>))"

definition insert_log :: "database \<Rightarrow> log_fields \<Rightarrow> store_error + ObjectId \<times> database" where
  "insert_log db f =
     (if \<not> int64 (log_value f) then Inl OverflowError else
      let i = ObjectId 12 (inc db) in
      Inr (i, db\<lparr>habitlog := habitlog db @
                [\<lparr>habit_id = habit_id f, log_day = log_day f, log_value = log_value f,
                  log_created_at = bson_datetime (log_created_at f),
                  log_updated_at = bson_datetime (log_updated_at f),
                  log_oid = i\<rparr>],
              inc := Suc (inc db)\<rparr>))"

section \<open>Handlers\<close>

definition unconfigured :: HTTPException where
  "unconfigured = HTTPException 500 ''Database not configured''"

text \<open>An exception that no handler catches: the server answers status 500.\<close>

definition internal_error :: HTTPException where
  "internal_error = HTTPException 500 ''Internal Server Error''"

text \<open>
  \<^verbatim>\<open>_coerce_objectid(id_str)\<close>: whatever the constructor raises becomes status 400.
\<close>

definition coerce_objectid :: "string \<Rightarrow> HTTPException + ObjectId" where
  "coerce_objectid id_s =
     (case ObjectId_of_str id_s of
        Some i \<Rightarrow> Inr i
      | None \<Rightarrow> Inl (HTTPException 400 ''Invalid ID format''))"

text \<open>
  \<^verbatim>\<open>toggle_log(habit_id, payload)\<close>; \<open>c\<close> and \<open>u\<close> are the two clock readings of the
  insert branch.
\<close>

definition log_matches :: "string \<Rightarrow> string \<Rightarrow> log_doc \<Rightarrow> bool" where
  "log_matches h d l \<longleftrightarrow> habit_id l = h \<and> log_day l = d"

definition toggle_log ::
  "handle \<Rightarrow> string \<Rightarrow> LogIn \<Rightarrow> datetime \<Rightarrow> datetime \<Rightarrow> toggle_out response \<times> handle" where
  "toggle_log dbh h payload c u =
     (case dbh of
        None \<Rightarrow> (Inl unconfigured, dbh)
      | Some db \<Rightarrow>
          (let day_str = isoformat (day payload) in
           case find_one (log_matches h day_str) (habitlog db) of
             Some existing \<Rightarrow>
               (Inr \<lparr>checked = False\<rparr>,
                Some (db\<lparr>habitlog :=
                   snd (delete_one (\<lambda>l. log_oid l = log_oid existing) (habitlog db))\<rparr>))
           | None \<Rightarrow>
               (case insert_log db
                   \<lparr>habit_id = h, log_day = day_str, log_value = val payload,
                    log_created_at = c, log_updated_at = u\<rparr> of
                  Inl OverflowError \<Rightarrow> (Inl internal_error, dbh)
                | Inr (inserted_id, db') \<Rightarrow> (Inr \<lparr>checked = True\<rparr>, Some db'))))"

text \<open>
  \<^verbatim>\<open>get_logs(habit_id, start, end)\<close>. The guard \<^verbatim>\<open>if start and end\<close> is Python
  truthiness: an absent bound and an empty string are both false. The store compares
  strings byte by byte, which is the lexicographic order on \<open>string\<close>.
\<close>

definition truthy :: "string option \<Rightarrow> bool" where
  "truthy s = (case s of None \<Rightarrow> False | Some t \<Rightarrow> t \<noteq> [])"

definition logs_filter :: "string \<Rightarrow> string option \<Rightarrow> string option \<Rightarrow> log_doc \<Rightarrow> bool" where
  "logs_filter h start end l =
     (if truthy start \<and> truthy end
      then habit_id l = h \<and> the start \<le> log_day l \<and> log_day l \<le> the end
      else habit_id l = h)"

definition log_out_of :: "log_doc \<Rightarrow> log_out" where
  "log_out_of l =
     \<lparr>habit_id = habit_id l, log_day = log_day l, log_value = log_value l,
      log_created_at = log_created_at l, log_updated_at = log_updated_at l,
      log_id = str_of_ObjectId (log_oid l)\<rparr>"

definition get_logs ::
  "handle \<Rightarrow> string \<Rightarrow> string option \<Rightarrow> string option \<Rightarrow> log_out list response \<times> handle" where
  "get_logs dbh h start end =
     (case dbh of
        None \<Rightarrow> (Inl unconfigured, dbh)
      | Some db \<Rightarrow>
          (Inr (map log_out_of (find_all (logs_filter h start end) (habitlog db))), dbh))"

text \<open>
  \<^verbatim>\<open>create_habit(habit)\<close>; \<open>c\<close> and \<open>u\<close> are the two clock readings.
\<close>

definition HabitOut_of :: "string \<Rightarrow> 'a HabitIn_scheme \<Rightarrow> HabitOut" where
  "HabitOut_of i h =
     \<lparr>name = name h, description = description h, color = color h,
      frequency = frequency h, days_of_week = days_of_week h, id_str = i\<rparr>"

definition create_habit ::
  "handle \<Rightarrow> HabitIn \<Rightarrow> datetime \<Rightarrow> datetime \<Rightarrow> HabitOut response \<times> handle" where
  "create_habit dbh h c u =
     (case dbh of
        None \<Rightarrow> (Inl unconfigured, dbh)
      | Some db \<Rightarrow>
          (case insert_habit db h c u of
             Inl OverflowError \<Rightarrow> (Inl internal_error, dbh)
           | Inr (inserted_id, db') \<Rightarrow>
               (Inr (HabitOut_of (str_of_ObjectId inserted_id) h), Some db')))"

text \<open>
  \<^verbatim>\<open>list_habits()\<close>: \<^verbatim>\<open>find().sort("created_at", -1)\<close>, then each document without
  its timestamps and with \<^verbatim>\<open>id = str(_id)\<close>. The store does not say in which order
  documents of equal \<^verbatim>\<open>created_at\<close> come; here they keep their natural order.
\<close>

definition sort_created_desc :: "habit_doc list \<Rightarrow> habit_doc list" where
  "sort_created_desc ds = sort_key (\<lambda>d. - created_at d) ds"

definition habit_out_of :: "habit_doc \<Rightarrow> HabitOut" where
  "habit_out_of d = HabitOut_of (str_of_ObjectId (oid d)) d"

definition list_habits :: "handle \<Rightarrow> HabitOut list response \<times> handle" where
  "list_habits dbh =
     (case dbh of
        None \<Rightarrow> (Inl unconfigured, dbh)
      | Some db \<Rightarrow> (Inr (map habit_out_of (sort_created_desc (habit db))), dbh))"

text \<open>
  \<^verbatim>\<open>delete_habit(habit_id)\<close>: the habit goes by its \<^verbatim>\<open>_id\<close>, its logs by the string
  \<^verbatim>\<open>habit_id\<close> as the caller wrote it.
\<close>

definition delete_habit :: "handle \<Rightarrow> string \<Rightarrow> delete_out response \<times> handle" where
  "delete_habit dbh h =
     (case dbh of
        None \<Rightarrow> (Inl unconfigured, dbh)
      | Some db \<Rightarrow>
          (case coerce_objectid h of
             Inl e \<Rightarrow> (Inl e, dbh)
           | Inr i \<Rightarrow>
               (let (deleted_count, habits') = delete_one (\<lambda>d. oid d = i) (habit db);
                    db1 = db\<lparr>habit := habits'\<rparr>
                in if deleted_count = 0
                   then (Inl (HTTPException 404 ''Habit not found''), Some db1)
                   else (Inr \<lparr>ok = True\<rparr>,
                         Some (db1\<lparr>habitlog :=
                            delete_many (\<lambda>l. habit_id l = h) (habitlog db1)\<rparr>)))))"

section \<open>Sequences of calls and the state of the store\<close>

text \<open>
  Toggle calls for one habit and one day, one after the other: each call brings its
  \<^verbatim>\<open>value\<close> and its two clock readings. The answers are collected in order.
\<close>

fun toggle_calls ::
  "handle \<Rightarrow> string \<Rightarrow> date \<Rightarrow> (int \<times> datetime \<times> datetime) list
     \<Rightarrow> toggle_out response list \<times> handle" where
  "toggle_calls dbh h d [] = ([], dbh)"
| "toggle_calls dbh h d ((v, c, u) # calls) =
     (let (r, dbh') = toggle_log dbh h \<lparr>day = d, val = v\<rparr> c u;
          (rs, dbh'') = toggle_calls dbh' h d calls
      in (r # rs, dbh''))"

text \<open>Creations one after the other: each brings its payload and two clock readings.\<close>

fun create_calls ::
  "handle \<Rightarrow> (HabitIn \<times> datetime \<times> datetime) list \<Rightarrow> HabitOut response list \<times> handle" where
  "create_calls dbh [] = ([], dbh)"
| "create_calls dbh ((h, c, u) # calls) =
     (let (r, dbh') = create_habit dbh h c u;
          (rs, dbh'') = create_calls dbh' calls
      in (r # rs, dbh''))"

text \<open>The number of logs stored for a pair of habit and day.\<close>

definition logs_for :: "string \<Rightarrow> string \<Rightarrow> database \<Rightarrow> nat" where
  "logs_for h d db = length (filter (log_matches h d) (habitlog db))"

text \<open>
  What the store guarantees of its identifiers: \<^verbatim>\<open>_id\<close> is unique within a collection,
  and every identifier in use was generated before the counter's present value.
\<close>

definition wf_db :: "database \<Rightarrow> bool" where
  "wf_db db \<longleftrightarrow>
     distinct (map oid (habit db)) \<and> distinct (map log_oid (habitlog db)) \<and>
     list_all (\<lambda>d. nbytes (oid d) = 12 \<and> binary (oid d) < inc db) (habit db) \<and>
     list_all (\<lambda>l. nbytes (log_oid l) = 12 \<and> binary (log_oid l) < inc db) (habitlog db)"

definition empty_db :: database where
  "empty_db = \<lparr>habit = [], habitlog = [], inc = 0\<rparr>"

subsection \<open>A store used as running example\<close>

text \<open>
  One habit, two logs of it on different days, and one log stored under a string that
  is no identifier at all (the log handlers never look at the habit collection).
\<close>

definition read_id :: string where
  "read_id = ''00000000000000000000000a''"

definition read_habit :: habit_doc where
  "read_habit =
     \<lparr>name = ''Read'', description = None, color = ''#6366f1'', frequency = ''daily'',
      days_of_week = None, created_at = 100000, updated_at = 100000, oid = ObjectId 12 10\<rparr>"

definition log_jan1 :: log_doc where
  "log_jan1 =
     \<lparr>habit_id = read_id, log_day = ''2024-01-01'', log_value = 5,
      log_created_at = 110000, log_updated_at = 111000, log_oid = ObjectId 12 11\<rparr>"

definition log_feb1 :: log_doc where
  "log_feb1 =
     \<lparr>habit_id = read_id, log_day = ''2024-02-01'', log_value = 1,
      log_created_at = 120000, log_updated_at = 121000, log_oid = ObjectId 12 12\<rparr>"

definition log_stray :: log_doc where
  "log_stray =
     \<lparr>habit_id = ''not-an-id'', log_day = ''2024-01-01'', log_value = 1,
      log_created_at = 130000, log_updated_at = 131000, log_oid = ObjectId 12 13\<rparr>"

definition example_db :: database where
  "example_db = \<lparr>habit = [read_habit], habitlog = [log_jan1, log_feb1, log_stray], inc = 14\<rparr>"

text \<open>The same store after a race has left a second log for the first of January.\<close>

definition log_jan1_again :: log_doc where
  "log_jan1_again =
     \<lparr>habit_id = read_id, log_day = ''2024-01-01'', log_value = 1,
      log_created_at = 140000, log_updated_at = 141000, log_oid = ObjectId 12 14\<rparr>"

definition raced_db :: database where
  "raced_db =
     \<lparr>habit = [read_habit], habitlog = [log_jan1, log_feb1, log_stray, log_jan1_again],
      inc = 15\<rparr>"

text \<open>Three payloads.\<close>

definition read_in :: HabitIn where
  "read_in = \<lparr>name = ''Read'', description = None, color = ''#6366f1'',
               frequency = ''daily'', days_of_week = None\<rparr>"

definition run_in :: HabitIn where
  "run_in = \<lparr>name = ''Run'', description = None, color = ''#6366f1'',
              frequency = ''weekly'', days_of_week = Some [0, 2]\<rparr>"

definition sleep_in :: HabitIn where
  "sleep_in = \<lparr>name = ''Sleep'', description = Some ''early'', color = ''#000000'',
                frequency = ''daily'', days_of_week = None\<rparr>"

lemmas example_defs =
  read_id_def read_habit_def log_jan1_def log_feb1_def log_stray_def example_db_def
  log_jan1_again_def raced_db_def

section \<open>Facts about the store operations\<close>

lemma find_one_None_iff: "find_one P xs = None \<longleftrightarrow> filter P xs = []"
  by (induction xs) (auto simp: find_one_def)

lemma find_one_SomeD: "find_one P xs = Some x \<Longrightarrow> P x \<and> x \<in> set xs"
  by (induction xs) (auto simp: find_one_def split: if_splits)

lemma find_one_snoc_fresh: "filter P xs = [] \<Longrightarrow> P y \<Longrightarrow> find_one P (xs @ [y]) = Some y"
  by (induction xs) (auto simp: find_one_def split: if_splits)

lemma delete_first_no_match: "filter P xs = [] \<Longrightarrow> delete_first P xs = xs"
  by (induction xs) (auto split: if_splits)

lemma delete_first_by_key:
  "distinct (map f xs) \<Longrightarrow> x \<in> set xs \<Longrightarrow> delete_first (\<lambda>l. f l = f x) xs = remove1 x xs"
  by (induction xs) auto


lemma delete_first_snoc_fresh:
  "filter P xs = [] \<Longrightarrow> P y \<Longrightarrow> delete_first P (xs @ [y]) = xs"
  by (induction xs) (auto split: if_splits)

lemma filter_delete_first_le:
  "length (filter Q (delete_first P xs)) \<le> length (filter Q xs)"
  by (induction xs) auto

lemma length_filter_remove1:
  "x \<in> set xs \<Longrightarrow> Q x \<Longrightarrow> Suc (length (filter Q (remove1 x xs))) = length (filter Q xs)"
  by (induction xs) auto

lemma filter_remove1_other:
  "Q x \<Longrightarrow> filter (\<lambda>y. \<not> Q y) (remove1 x xs) = filter (\<lambda>y. \<not> Q y) xs"
  by (induction xs) auto

lemma wf_db_log_ids:
  "wf_db db \<Longrightarrow> filter (\<lambda>l. log_oid l = ObjectId 12 (inc db)) (habitlog db) = []"
  by (auto simp: wf_db_def list_all_iff filter_empty_conv)

lemma wf_example_db: "wf_db example_db"
  by (simp add: wf_db_def example_defs)

lemma wf_raced_db: "wf_db raced_db"
  by (simp add: wf_db_def example_defs)

text \<open>Without a store handle every data handler fails with status 500.\<close>

lemma handlers_unconfigured:
  "toggle_log None h p c u = (Inl unconfigured, None)"
  "get_logs None h start end = (Inl unconfigured, None)"
  "create_habit None hb c u = (Inl unconfigured, None)"
  "list_habits None = (Inl unconfigured, None)"
  "delete_habit None h = (Inl unconfigured, None)"
  by (simp_all add: toggle_log_def get_logs_def create_habit_def list_habits_def delete_habit_def)

section \<open>The toggle\<close>

lemma toggle_found:
  assumes "wf_db db" and "find_one (log_matches h (isoformat (day p))) (habitlog db) = Some l"
  shows "toggle_log (Some db) h p c u =
           (Inr \<lparr>checked = False\<rparr>, Some (db\<lparr>habitlog := remove1 l (habitlog db)\<rparr>))"
proof -
  from assms(2) have "l \<in> set (habitlog db)" by (simp add: find_one_SomeD)
  moreover from assms(1) have "distinct (map log_oid (habitlog db))" by (simp add: wf_db_def)
  ultimately have "delete_first (\<lambda>x. log_oid x = log_oid l) (habitlog db) = remove1 l (habitlog db)"
    by (rule delete_first_by_key[rotated])
  with assms(2) show ?thesis by (simp add: toggle_log_def delete_one_def)
qed

lemma toggle_absent:
  assumes "find_one (log_matches h (isoformat (day p))) (habitlog db) = None"
    and "int64 (val p)"
  shows "toggle_log (Some db) h p c u =
           (Inr \<lparr>checked = True\<rparr>,
            Some (db\<lparr>habitlog := habitlog db @
                    [\<lparr>habit_id = h, log_day = isoformat (day p), log_value = val p,
                      log_created_at = bson_datetime c, log_updated_at = bson_datetime u,
                      log_oid = ObjectId 12 (inc db)\<rparr>],
                  inc := Suc (inc db)\<rparr>))"
  using assms by (simp add: toggle_log_def insert_log_def Let_def)

lemma toggle_overflow:
  assumes "find_one (log_matches h (isoformat (day p))) (habitlog db) = None"
    and "\<not> int64 (val p)"
  shows "toggle_log (Some db) h p c u = (Inl internal_error, Some db)"
  using assms by (simp add: toggle_log_def insert_log_def Let_def)

lemma toggle_calls_two:
  "toggle_calls (Some db) h d [(v1, c1, u1), (v2, c2, u2)] =
     (let (r1, s1) = toggle_log (Some db) h \<lparr>day = d, val = v1\<rparr> c1 u1;
          (r2, s2) = toggle_log s1 h \<lparr>day = d, val = v2\<rparr> c2 u2
      in ([r1, r2], s2))"
  by (simp add: Let_def split: prod.splits)

lemma toggle_twice_absent:
  assumes wf: "wf_db db" and none: "logs_for h (isoformat d) db = 0" and v1: "int64 v1"
  shows "toggle_calls (Some db) h d [(v1, c1, u1), (v2, c2, u2)] =
           ([Inr \<lparr>checked = True\<rparr>, Inr \<lparr>checked = False\<rparr>],
            Some (db\<lparr>inc := Suc (inc db)\<rparr>))"
proof -
  let ?m = "log_matches h (isoformat d)"
  let ?new = "\<lparr>habit_id = h, log_day = isoformat d, log_value = v1,
                log_created_at = bson_datetime c1, log_updated_at = bson_datetime u1,
                log_oid = ObjectId 12 (inc db)\<rparr>"
  let ?db1 = "db\<lparr>habitlog := habitlog db @ [?new], inc := Suc (inc db)\<rparr>"
  from none have nomatch: "filter ?m (habitlog db) = []" by (simp add: logs_for_def)
  then have "find_one ?m (habitlog db) = None" by (simp add: find_one_None_iff)
  then have first: "toggle_log (Some db) h \<lparr>day = d, val = v1\<rparr> c1 u1
                      = (Inr \<lparr>checked = True\<rparr>, Some ?db1)"
    using toggle_absent[of h "\<lparr>day = d, val = v1\<rparr>" db c1 u1] v1 by simp
  have "?m ?new" by (simp add: log_matches_def)
  with nomatch have found: "find_one ?m (habitlog ?db1) = Some ?new"
    by (simp add: find_one_snoc_fresh)
  have "delete_first (\<lambda>l. log_oid l = log_oid ?new) (habitlog ?db1) = habitlog db"
    using wf_db_log_ids[OF wf] by (simp add: delete_first_snoc_fresh)
  with found have second: "toggle_log (Some ?db1) h \<lparr>day = d, val = v2\<rparr> c2 u2
                      = (Inr \<lparr>checked = False\<rparr>, Some (db\<lparr>inc := Suc (inc db)\<rparr>))"
    by (simp add: toggle_log_def delete_one_def)
  show ?thesis by (simp add: toggle_calls_two first second)
qed

lemma toggle_twice_present:
  assumes wf: "wf_db db" and one: "logs_for h (isoformat d) db = 1"
    and l: "find_one (log_matches h (isoformat d)) (habitlog db) = Some l"
    and v2: "int64 v2"
  shows "toggle_calls (Some db) h d [(v1, c1, u1), (v2, c2, u2)] =
           ([Inr \<lparr>checked = False\<rparr>, Inr \<lparr>checked = True\<rparr>],
            Some (db\<lparr>habitlog := remove1 l (habitlog db) @
                     [\<lparr>habit_id = h, log_day = isoformat d, log_value = v2,
                       log_created_at = bson_datetime c2, log_updated_at = bson_datetime u2,
                       log_oid = ObjectId 12 (inc db)\<rparr>],
                   inc := Suc (inc db)\<rparr>))"
proof -
  let ?m = "log_matches h (isoformat d)"
  let ?db1 = "db\<lparr>habitlog := remove1 l (habitlog db)\<rparr>"
  have first: "toggle_log (Some db) h \<lparr>day = d, val = v1\<rparr> c1 u1
                 = (Inr \<lparr>checked = False\<rparr>, Some ?db1)"
    using toggle_found[OF wf, of h "\<lparr>day = d, val = v1\<rparr>" l c1 u1] l by simp
  from find_one_SomeD[OF l] have "l \<in> set (habitlog db)" "?m l" by simp_all
  from length_filter_remove1[of l "habitlog db" ?m, OF this] one
  have "filter ?m (remove1 l (habitlog db)) = []" by (simp add: logs_for_def)
  then have "find_one ?m (habitlog ?db1) = None" by (simp add: find_one_None_iff)
  then have second: "toggle_log (Some ?db1) h \<lparr>day = d, val = v2\<rparr> c2 u2
       = (Inr \<lparr>checked = True\<rparr>,
          Some (db\<lparr>habitlog := remove1 l (habitlog db) @
                     [\<lparr>habit_id = h, log_day = isoformat d, log_value = v2,
                       log_created_at = bson_datetime c2, log_updated_at = bson_datetime u2,
                       log_oid = ObjectId 12 (inc db)\<rparr>],
                   inc := Suc (inc db)\<rparr>))"
    using toggle_absent[of h "\<lparr>day = d, val = v2\<rparr>" ?db1 c2 u2] v2 by simp
  show ?thesis by (simp add: toggle_calls_two first second)
qed

lemma toggle_log_bound:
  assumes "logs_for h d db \<le> 1"
  shows "\<exists>r db'. toggle_log (Some db) h' p c u = (r, Some db') \<and>
                  logs_for h d db' \<le> 1 \<and>
                  (int64 (val p) \<longrightarrow> (\<exists>b. r = Inr \<lparr>checked = b\<rparr>))"
proof (cases "find_one (log_matches h' (isoformat (day p))) (habitlog db)")
  case None
  then have nomatch: "filter (log_matches h' (isoformat (day p))) (habitlog db) = []"
    by (simp add: find_one_None_iff)
  show ?thesis
  proof (cases "int64 (val p)")
    case False
    with assms show ?thesis unfolding toggle_overflow[OF None False] by simp
  next
    case fits: True
    note eq = toggle_absent[OF None fits, of c u]
    show ?thesis
    proof (cases "h' = h \<and> isoformat (day p) = d")
      case True
      with nomatch have "filter (log_matches h d) (habitlog db) = []" by simp
      then show ?thesis unfolding eq using True
        by (auto simp: logs_for_def log_matches_def)
    next
      case False
      then have "\<not> log_matches h d \<lparr>habit_id = h', log_day = isoformat (day p),
                      log_value = val p, log_created_at = bson_datetime c,
                      log_updated_at = bson_datetime u, log_oid = ObjectId 12 (inc db)\<rparr>"
        by (auto simp: log_matches_def)
      with assms show ?thesis unfolding eq
        by (auto simp: logs_for_def)
    qed
  qed
next
  case (Some l)
  have "logs_for h d (db\<lparr>habitlog := delete_first (\<lambda>x. log_oid x = log_oid l) (habitlog db)\<rparr>)
          \<le> logs_for h d db"
    by (simp add: logs_for_def filter_delete_first_le)
  with assms Some show ?thesis
    by (auto simp: toggle_log_def delete_one_def)
qed

lemmas toggle_eval =
  toggle_log_def find_one_def delete_one_def insert_log_def log_matches_def logs_for_def
  isoformat_def digit_def Let_def int64_def bson_datetime_def internal_error_def

text \<open>
  C2, as the code has it. A single toggle looks for a log of exactly the pair
  (habit id, day). The lookup finds nothing precisely when the pair has no log, and
  what it finds is a stored log of that pair. If it finds one, the call removes that
  log and answers \<^verbatim>\<open>{checked: false}\<close>. If it finds none and the value fits 64 bits, it
  appends a new log holding the habit id, the day, the value and the two timestamps
  (cut to milliseconds) and answers \<^verbatim>\<open>{checked: true}\<close>; if the value does not fit,
  the store refuses the document, nothing is stored and the call fails with status 500.
\<close>

theorem toggle_log_single:
  assumes "wf_db db"
  shows "(find_one (log_matches h (isoformat (day p))) (habitlog db) = None
            \<longleftrightarrow> logs_for h (isoformat (day p)) db = 0) \<and>
         (\<forall>l. find_one (log_matches h (isoformat (day p))) (habitlog db) = Some l \<longrightarrow>
            habit_id l = h \<and> log_day l = isoformat (day p) \<and> l \<in> set (habitlog db)) \<and>
         toggle_log (Some db) h p c u =
           (case find_one (log_matches h (isoformat (day p))) (habitlog db) of
              Some existing \<Rightarrow>
                (Inr \<lparr>checked = False\<rparr>,
                 Some (db\<lparr>habitlog := remove1 existing (habitlog db)\<rparr>))
            | None \<Rightarrow>
                if int64 (val p)
                then (Inr \<lparr>checked = True\<rparr>,
                      Some (db\<lparr>habitlog := habitlog db @
                         [\<lparr>habit_id = h, log_day = isoformat (day p), log_value = val p,
                           log_created_at = bson_datetime c,
                           log_updated_at = bson_datetime u,
                           log_oid = ObjectId 12 (inc db)\<rparr>],
                       inc := Suc (inc db)\<rparr>))
                else (Inl (HTTPException 500 ''Internal Server Error''), Some db))"
proof (intro conjI allI impI)
  show "(find_one (log_matches h (isoformat (day p))) (habitlog db) = None)
          = (logs_for h (isoformat (day p)) db = 0)"
    by (simp add: find_one_None_iff logs_for_def)
next
  fix l assume "find_one (log_matches h (isoformat (day p))) (habitlog db) = Some l"
  from find_one_SomeD[OF this]
  show "habit_id l = h" "log_day l = isoformat (day p)" "l \<in> set (habitlog db)"
    by (simp_all add: log_matches_def)
next
  show "toggle_log (Some db) h p c u =
           (case find_one (log_matches h (isoformat (day p))) (habitlog db) of
              Some existing \<Rightarrow>
                (Inr \<lparr>checked = False\<rparr>,
                 Some (db\<lparr>habitlog := remove1 existing (habitlog db)\<rparr>))
            | None \<Rightarrow>
                if int64 (val p)
                then (Inr \<lparr>checked = True\<rparr>,
                      Some (db\<lparr>habitlog := habitlog db @
                         [\<lparr>habit_id = h, log_day = isoformat (day p), log_value = val p,
                           log_created_at = bson_datetime c,
                           log_updated_at = bson_datetime u,
                           log_oid = ObjectId 12 (inc db)\<rparr>],
                       inc := Suc (inc db)\<rparr>))
                else (Inl (HTTPException 500 ''Internal Server Error''), Some db))"
  proof (cases "find_one (log_matches h (isoformat (day p))) (habitlog db)")
    case None
    then show ?thesis
      by (cases "int64 (val p)") (simp_all add: toggle_absent toggle_overflow internal_error_def)
  next
    case (Some l)
    then show ?thesis using assms by (simp add: toggle_found)
  qed
qed

theorem toggle_log_single_witness:
  "wf_db example_db \<and>
   toggle_log (Some example_db) read_id \<lparr>day = Date 2024 1 1, val = 1\<rparr> 200500 201700 =
     (Inr \<lparr>checked = False\<rparr>, Some (example_db\<lparr>habitlog := [log_feb1, log_stray]\<rparr>)) \<and>
   toggle_log (Some example_db) read_id \<lparr>day = Date 2024 1 2, val = 7\<rparr> 200500 201700 =
     (Inr \<lparr>checked = True\<rparr>,
      Some (example_db\<lparr>habitlog := [log_jan1, log_feb1, log_stray,
              \<lparr>habit_id = read_id, log_day = ''2024-01-02'', log_value = 7,
                log_created_at = 200000, log_updated_at = 201000,
                log_oid = ObjectId 12 14\<rparr>],
            inc := 15\<rparr>))"
proof -
  note found = toggle_log_single[OF wf_example_db,
      of read_id "\<lparr>day = Date 2024 1 1, val = 1\<rparr>" 200500 201700,
      THEN conjunct2, THEN conjunct2]
  note absent = toggle_log_single[OF wf_example_db,
      of read_id "\<lparr>day = Date 2024 1 2, val = 7\<rparr>" 200500 201700,
      THEN conjunct2, THEN conjunct2]
  have l: "find_one (log_matches read_id (isoformat (day \<lparr>day = Date 2024 1 1, val = 1\<rparr>)))
             (habitlog example_db) = Some log_jan1"
    by (simp add: find_one_def log_matches_def isoformat_def digit_def example_defs)
  have n: "find_one (log_matches read_id (isoformat (day \<lparr>day = Date 2024 1 2, val = 7\<rparr>)))
             (habitlog example_db) = None"
    by (simp add: find_one_def log_matches_def isoformat_def digit_def example_defs)
  have "toggle_log (Some example_db) read_id \<lparr>day = Date 2024 1 1, val = 1\<rparr> 200500 201700 =
     (Inr \<lparr>checked = False\<rparr>, Some (example_db\<lparr>habitlog := [log_feb1, log_stray]\<rparr>))"
    unfolding found l by (simp add: example_defs)
  moreover
  have "toggle_log (Some example_db) read_id \<lparr>day = Date 2024 1 2, val = 7\<rparr> 200500 201700 =
     (Inr \<lparr>checked = True\<rparr>,
      Some (example_db\<lparr>habitlog := [log_jan1, log_feb1, log_stray,
              \<lparr>habit_id = read_id, log_day = ''2024-01-02'', log_value = 7,
                log_created_at = 200000, log_updated_at = 201000,
                log_oid = ObjectId 12 14\<rparr>],
            inc := 15\<rparr>))"
    unfolding absent n
    by (simp add: example_db_def isoformat_def digit_def int64_def bson_datetime_def)
  ultimately show ?thesis using wf_example_db by simp
qed

text \<open>
  C2 as stated fails for a value that does not fit 64 bits: the pair has no log, yet
  the call inserts nothing and does not answer \<^verbatim>\<open>{checked: true}\<close>.
\<close>

theorem toggle_log_single_counterexample:
  "find_one (log_matches read_id ''2024-01-02'') (habitlog example_db) = None \<and>
   toggle_log (Some example_db) read_id
       \<lparr>day = Date 2024 1 2, val = 9223372036854775808\<rparr> 200500 201700 =
     (Inl (HTTPException 500 ''Internal Server Error''), Some example_db)"
  by (simp add: toggle_eval example_defs)

text \<open>
  C10. When the store holds \<open>n \<ge> 1\<close> logs for the pair (duplicates included), one
  toggle removes exactly one of them, the one the lookup returned, addressed by its
  own \<^verbatim>\<open>_id\<close>; it answers \<^verbatim>\<open>{checked: false}\<close>, the pair keeps \<open>n - 1\<close> logs and
  the logs of every other pair stay as they were.
\<close>

theorem toggle_log_duplicates:
  assumes "wf_db db" and "logs_for h (isoformat (day p)) db = n" and "1 \<le> n"
  shows "\<exists>l. find_one (log_matches h (isoformat (day p))) (habitlog db) = Some l \<and>
           toggle_log (Some db) h p c u =
             (Inr \<lparr>checked = False\<rparr>,
              Some (db\<lparr>habitlog :=
                 delete_first (\<lambda>x. log_oid x = log_oid l) (habitlog db)\<rparr>)) \<and>
           delete_first (\<lambda>x. log_oid x = log_oid l) (habitlog db) = remove1 l (habitlog db) \<and>
           logs_for h (isoformat (day p)) (db\<lparr>habitlog := remove1 l (habitlog db)\<rparr>) = n - 1 \<and>
           Suc (length (remove1 l (habitlog db))) = length (habitlog db) \<and>
           filter (\<lambda>x. \<not> log_matches h (isoformat (day p)) x) (remove1 l (habitlog db)) =
             filter (\<lambda>x. \<not> log_matches h (isoformat (day p)) x) (habitlog db)"
proof -
  let ?m = "log_matches h (isoformat (day p))"
  from assms(2,3) have "filter ?m (habitlog db) \<noteq> []"
    by (auto simp: logs_for_def)
  then obtain l where l: "find_one ?m (habitlog db) = Some l"
    by (cases "find_one ?m (habitlog db)") (auto simp: find_one_None_iff)
  from find_one_SomeD[OF l] have mem: "l \<in> set (habitlog db)" and ml: "?m l" by simp_all
  from assms(1) have "distinct (map log_oid (habitlog db))" by (simp add: wf_db_def)
  then have del: "delete_first (\<lambda>x. log_oid x = log_oid l) (habitlog db) = remove1 l (habitlog db)"
    using mem by (rule delete_first_by_key)
  have t: "toggle_log (Some db) h p c u =
             (Inr \<lparr>checked = False\<rparr>,
              Some (db\<lparr>habitlog :=
                 delete_first (\<lambda>x. log_oid x = log_oid l) (habitlog db)\<rparr>))"
    using toggle_found[OF assms(1) l] del by simp
  have cnt: "logs_for h (isoformat (day p)) (db\<lparr>habitlog := remove1 l (habitlog db)\<rparr>) = n - 1"
    using length_filter_remove1[of l "habitlog db" ?m, OF mem ml] assms(2)
    by (simp add: logs_for_def)
  have len: "Suc (length (remove1 l (habitlog db))) = length (habitlog db)"
    using mem by (simp add: length_remove1) (cases "habitlog db", auto)
  have rest: "filter (\<lambda>x. \<not> ?m x) (remove1 l (habitlog db)) = filter (\<lambda>x. \<not> ?m x) (habitlog db)"
    using ml by (rule filter_remove1_other)
  from l t del cnt len rest show ?thesis by blast
qed

theorem toggle_log_duplicates_witness:
  "wf_db raced_db \<and>
   logs_for read_id (isoformat (day \<lparr>day = Date 2024 1 1, val = 1\<rparr>)) raced_db = 2 \<and>
   toggle_log (Some raced_db) read_id \<lparr>day = Date 2024 1 1, val = 1\<rparr> 200 201 =
     (Inr \<lparr>checked = False\<rparr>,
      Some (raced_db\<lparr>habitlog := [log_feb1, log_stray, log_jan1_again]\<rparr>)) \<and>
   logs_for read_id (isoformat (day \<lparr>day = Date 2024 1 1, val = 1\<rparr>))
     (raced_db\<lparr>habitlog := [log_feb1, log_stray, log_jan1_again]\<rparr>) = 1"
proof -
  let ?p = "\<lparr>day = Date 2024 1 1, val = 1\<rparr>"
  have n: "logs_for read_id (isoformat (day ?p)) raced_db = 2"
    by (simp add: logs_for_def log_matches_def isoformat_def digit_def example_defs)
  have two: "1 \<le> (2::nat)" by simp
  from toggle_log_duplicates[OF wf_raced_db n two, of 200 201]
  obtain l where l: "find_one (log_matches read_id (isoformat (day ?p))) (habitlog raced_db) = Some l"
    and t: "toggle_log (Some raced_db) read_id ?p 200 201 =
             (Inr \<lparr>checked = False\<rparr>,
              Some (raced_db\<lparr>habitlog :=
                 delete_first (\<lambda>x. log_oid x = log_oid l) (habitlog raced_db)\<rparr>))"
    and r: "delete_first (\<lambda>x. log_oid x = log_oid l) (habitlog raced_db) = remove1 l (habitlog raced_db)"
    and c: "logs_for read_id (isoformat (day ?p)) (raced_db\<lparr>habitlog := remove1 l (habitlog raced_db)\<rparr>) = 2 - 1"
    by blast
  have "find_one (log_matches read_id (isoformat (day ?p))) (habitlog raced_db) = Some log_jan1"
    by (simp add: find_one_def log_matches_def isoformat_def digit_def example_defs)
  with l have ll: "l = log_jan1" by simp
  have rm: "remove1 log_jan1 (habitlog raced_db) = [log_feb1, log_stray, log_jan1_again]"
    by (simp add: example_defs)
  note r' = r[unfolded ll rm]
  note t' = t[unfolded ll, unfolded r']
  note c' = c[unfolded ll rm]
  from t' c' show ?thesis using wf_raced_db n by simp
qed

text \<open>
  C3. Any finite sequence of toggle calls for one pair, run one after the other on a
  configured store that holds at most one log for the pair, ends in a store that
  again holds at most one log for the pair; every call whose value fits 64 bits
  is answered with \<^verbatim>\<open>{checked: ...}\<close>.
\<close>

theorem toggle_calls_at_most_one:
  assumes "logs_for h (isoformat d) db \<le> 1"
  shows "\<exists>rs db'. toggle_calls (Some db) h d calls = (rs, Some db') \<and>
           length rs = length calls \<and>
           ((\<forall>call\<in>set calls. int64 (fst call)) \<longrightarrow>
              (\<forall>r\<in>set rs. \<exists>b. r = Inr \<lparr>checked = b\<rparr>)) \<and>
           logs_for h (isoformat d) db' \<le> 1"
  using assms
proof (induction calls arbitrary: db)
  case Nil
  then show ?case by simp
next
  case (Cons call calls)
  obtain v c u where call: "call = (v, c, u)" by (cases call) auto
  from toggle_log_bound[OF Cons.prems, of h "\<lparr>day = d, val = v\<rparr>" c u]
  obtain r db1 where first: "toggle_log (Some db) h \<lparr>day = d, val = v\<rparr> c u = (r, Some db1)"
    and bound: "logs_for h (isoformat d) db1 \<le> 1"
    and answer: "int64 v \<longrightarrow> (\<exists>b. r = Inr \<lparr>checked = b\<rparr>)" by auto
  from Cons.IH[OF bound]
  obtain rs db' where rest: "toggle_calls (Some db1) h d calls = (rs, Some db')"
    and len: "length rs = length calls"
    and ok: "(\<forall>call\<in>set calls. int64 (fst call)) \<longrightarrow> (\<forall>r\<in>set rs. \<exists>b. r = Inr \<lparr>checked = b\<rparr>)"
    and final: "logs_for h (isoformat d) db' \<le> 1" by blast
  have "toggle_calls (Some db) h d (call # calls) = (r # rs, Some db')"
    by (simp add: call first rest)
  with len ok final answer call show ?case by auto
qed

theorem toggle_calls_at_most_one_witness:
  "logs_for read_id (isoformat (Date 2024 1 1)) example_db \<le> 1 \<and>
   (\<exists>rs db'. toggle_calls (Some example_db) read_id (Date 2024 1 1)
                 [(1, 200500, 201700), (2, 210500, 211700), (3, 220500, 221700)]
                 = (rs, Some db') \<and>
      length rs = 3 \<and> logs_for read_id (isoformat (Date 2024 1 1)) db' \<le> 1)"
proof -
  have h: "logs_for read_id (isoformat (Date 2024 1 1)) example_db \<le> 1"
    by (simp add: logs_for_def log_matches_def isoformat_def digit_def example_defs)
  from toggle_calls_at_most_one[OF h,
      of "[(1, 200500, 201700), (2, 210500, 211700), (3, 220500, 221700)]"]
  show ?thesis using h by auto
qed

text \<open>
  C1, as the code has it. On a configured store that holds at most one log for the
  pair, two consecutive toggles with values of at most 64 bits answer
  \<^verbatim>\<open>{checked: true}\<close> then \<^verbatim>\<open>{checked: false}\<close> and leave both collections exactly as
  they were when the pair had no log. When the pair had a log, they answer
  \<^verbatim>\<open>{checked: false}\<close> then \<^verbatim>\<open>{checked: true}\<close>, the logs of all other pairs are
  untouched and the pair has exactly one log again: a new record, with a new \<^verbatim>\<open>_id\<close>
  and the value and timestamps of the second call, in place of the one that was
  stored.
\<close>

theorem toggle_twice_round_trip:
  assumes "wf_db db" and "logs_for h (isoformat d) db \<le> 1"
  shows "(logs_for h (isoformat d) db = 0 \<and> int64 v1 \<longrightarrow>
            toggle_calls (Some db) h d [(v1, c1, u1), (v2, c2, u2)] =
              ([Inr \<lparr>checked = True\<rparr>, Inr \<lparr>checked = False\<rparr>],
               Some (db\<lparr>inc := Suc (inc db)\<rparr>))) \<and>
         (\<forall>l. find_one (log_matches h (isoformat d)) (habitlog db) = Some l \<and> int64 v2 \<longrightarrow>
            toggle_calls (Some db) h d [(v1, c1, u1), (v2, c2, u2)] =
              ([Inr \<lparr>checked = False\<rparr>, Inr \<lparr>checked = True\<rparr>],
               Some (db\<lparr>habitlog := remove1 l (habitlog db) @
                        [\<lparr>habit_id = h, log_day = isoformat d, log_value = v2,
                          log_created_at = bson_datetime c2,
                          log_updated_at = bson_datetime u2,
                          log_oid = ObjectId 12 (inc db)\<rparr>],
                      inc := Suc (inc db)\<rparr>)) \<and>
            length (filter (log_matches h (isoformat d))
              (remove1 l (habitlog db) @
                 [\<lparr>habit_id = h, log_day = isoformat d, log_value = v2,
                   log_created_at = bson_datetime c2, log_updated_at = bson_datetime u2,
                   log_oid = ObjectId 12 (inc db)\<rparr>])) = 1 \<and>
            filter (\<lambda>x. \<not> log_matches h (isoformat d) x)
              (remove1 l (habitlog db) @
                 [\<lparr>habit_id = h, log_day = isoformat d, log_value = v2,
                   log_created_at = bson_datetime c2, log_updated_at = bson_datetime u2,
                   log_oid = ObjectId 12 (inc db)\<rparr>]) =
            filter (\<lambda>x. \<not> log_matches h (isoformat d) x) (habitlog db))"
proof (intro conjI allI impI)
  assume "logs_for h (isoformat d) db = 0 \<and> int64 v1"
  then have "logs_for h (isoformat d) db = 0" "int64 v1" by simp_all
  with assms(1)
  show "toggle_calls (Some db) h d [(v1, c1, u1), (v2, c2, u2)] =
      ([Inr \<lparr>checked = True\<rparr>, Inr \<lparr>checked = False\<rparr>], Some (db\<lparr>inc := Suc (inc db)\<rparr>))"
    by (rule toggle_twice_absent)
next
  fix l
  let ?m = "log_matches h (isoformat d)"
  let ?new = "\<lparr>habit_id = h, log_day = isoformat d, log_value = v2,
                log_created_at = bson_datetime c2, log_updated_at = bson_datetime u2,
                log_oid = ObjectId 12 (inc db)\<rparr>"
  assume "find_one ?m (habitlog db) = Some l \<and> int64 v2"
  then have l: "find_one ?m (habitlog db) = Some l" and v2: "int64 v2" by simp_all
  from find_one_SomeD[OF l] have mem: "l \<in> set (habitlog db)" and ml: "?m l" by simp_all
  have suc: "Suc (length (filter ?m (remove1 l (habitlog db)))) = length (filter ?m (habitlog db))"
    using mem ml by (rule length_filter_remove1)
  with assms(2) have "length (filter ?m (remove1 l (habitlog db))) = 0"
    and one: "logs_for h (isoformat d) db = 1"
    unfolding logs_for_def by linarith+
  then have gone: "filter ?m (remove1 l (habitlog db)) = []" by simp
  show "toggle_calls (Some db) h d [(v1, c1, u1), (v2, c2, u2)] =
      ([Inr \<lparr>checked = False\<rparr>, Inr \<lparr>checked = True\<rparr>],
       Some (db\<lparr>habitlog := remove1 l (habitlog db) @ [?new], inc := Suc (inc db)\<rparr>))"
    using assms(1) one l v2 by (rule toggle_twice_present)
  show "length (filter ?m (remove1 l (habitlog db) @ [?new])) = 1"
    using gone by (simp add: log_matches_def)
  show "filter (\<lambda>x. \<not> ?m x) (remove1 l (habitlog db) @ [?new]) =
          filter (\<lambda>x. \<not> ?m x) (habitlog db)"
    using filter_remove1_other[of ?m l "habitlog db"] ml by (simp add: log_matches_def)
qed

theorem toggle_twice_round_trip_witness:
  "wf_db example_db \<and>
   logs_for read_id (isoformat (Date 2024 1 2)) example_db \<le> 1 \<and>
   logs_for read_id (isoformat (Date 2024 1 1)) example_db \<le> 1 \<and>
   toggle_calls (Some example_db) read_id (Date 2024 1 2)
       [(1, 200500, 201700), (1, 210500, 211700)] =
     ([Inr \<lparr>checked = True\<rparr>, Inr \<lparr>checked = False\<rparr>], Some (example_db\<lparr>inc := 15\<rparr>)) \<and>
   toggle_calls (Some example_db) read_id (Date 2024 1 1)
       [(1, 200500, 201700), (1, 210500, 211700)] =
     ([Inr \<lparr>checked = False\<rparr>, Inr \<lparr>checked = True\<rparr>],
      Some (example_db\<lparr>habitlog := [log_feb1, log_stray,
              \<lparr>habit_id = read_id, log_day = ''2024-01-01'', log_value = 1,
                log_created_at = 210000, log_updated_at = 211000,
                log_oid = ObjectId 12 14\<rparr>],
            inc := 15\<rparr>))"
proof -
  have n2: "logs_for read_id (isoformat (Date 2024 1 2)) example_db = 0"
    by (simp add: logs_for_def log_matches_def isoformat_def digit_def example_defs)
  have n1: "logs_for read_id (isoformat (Date 2024 1 1)) example_db = 1"
    by (simp add: logs_for_def log_matches_def isoformat_def digit_def example_defs)
  have f1: "find_one (log_matches read_id (isoformat (Date 2024 1 1))) (habitlog example_db)
              = Some log_jan1"
    by (simp add: find_one_def log_matches_def isoformat_def digit_def example_defs)
  have fits: "int64 1" by (simp add: int64_def)
  have le2: "logs_for read_id (isoformat (Date 2024 1 2)) example_db \<le> 1"
    unfolding n2 by simp
  have le1: "logs_for read_id (isoformat (Date 2024 1 1)) example_db \<le> 1"
    unfolding n1 by simp
  note absent = toggle_twice_round_trip[OF wf_example_db le2,
      of 1 200500 201700 1 210500 211700, THEN conjunct1, rule_format, OF conjI, OF n2 fits]
  note present = toggle_twice_round_trip[OF wf_example_db le1,
      of 1 200500 201700 1 210500 211700, THEN conjunct2, rule_format, OF conjI,
      OF f1 fits, THEN conjunct1]
  have a: "toggle_calls (Some example_db) read_id (Date 2024 1 2)
       [(1, 200500, 201700), (1, 210500, 211700)] =
     ([Inr \<lparr>checked = True\<rparr>, Inr \<lparr>checked = False\<rparr>], Some (example_db\<lparr>inc := 15\<rparr>))"
    unfolding absent by (simp add: example_db_def)
  have b: "toggle_calls (Some example_db) read_id (Date 2024 1 1)
       [(1, 200500, 201700), (1, 210500, 211700)] =
     ([Inr \<lparr>checked = False\<rparr>, Inr \<lparr>checked = True\<rparr>],
      Some (example_db\<lparr>habitlog := [log_feb1, log_stray,
              \<lparr>habit_id = read_id, log_day = ''2024-01-01'', log_value = 1,
                log_created_at = 210000, log_updated_at = 211000,
                log_oid = ObjectId 12 14\<rparr>],
            inc := 15\<rparr>))"
    unfolding present by (simp add: example_defs isoformat_def digit_def bson_datetime_def)
  from wf_example_db le2 le1 a b show ?thesis by blast
qed

text \<open>
  C1 as stated fails where a log was stored: after the two toggles the stored log of
  value 5 is gone and a different record, of value 1 and with another \<^verbatim>\<open>_id\<close> and
  other timestamps, stands in its place, so the set of log records is not the one
  before the calls. It fails as well where a race has left two logs for the pair:
  both calls answer \<^verbatim>\<open>{checked: false}\<close> and both logs are gone.
\<close>

theorem toggle_twice_counterexample:
  "toggle_calls (Some example_db) read_id (Date 2024 1 1)
       [(1, 200500, 201700), (1, 210500, 211700)] =
     ([Inr \<lparr>checked = False\<rparr>, Inr \<lparr>checked = True\<rparr>],
      Some (example_db\<lparr>habitlog := [log_feb1, log_stray,
              \<lparr>habit_id = read_id, log_day = ''2024-01-01'', log_value = 1,
                log_created_at = 210000, log_updated_at = 211000,
                log_oid = ObjectId 12 14\<rparr>],
            inc := 15\<rparr>)) \<and>
   set [log_feb1, log_stray,
        \<lparr>habit_id = read_id, log_day = ''2024-01-01'', log_value = 1,
          log_created_at = 210000, log_updated_at = 211000, log_oid = ObjectId 12 14\<rparr>]
     \<noteq> set (habitlog example_db) \<and>
   map log_value (filter (log_matches read_id ''2024-01-01'') (habitlog example_db)) = [5] \<and>
   map log_value (filter (log_matches read_id ''2024-01-01'')
      [log_feb1, log_stray,
        \<lparr>habit_id = read_id, log_day = ''2024-01-01'', log_value = 1,
          log_created_at = 210000, log_updated_at = 211000,
          log_oid = ObjectId 12 14\<rparr>]) = [1] \<and>
   toggle_calls (Some raced_db) read_id (Date 2024 1 1)
       [(1, 200500, 201700), (1, 210500, 211700)] =
     ([Inr \<lparr>checked = False\<rparr>, Inr \<lparr>checked = False\<rparr>],
      Some (raced_db\<lparr>habitlog := [log_feb1, log_stray]\<rparr>))"
proof -
  let ?new = "\<lparr>habit_id = read_id, log_day = ''2024-01-01'', log_value = 1,
          log_created_at = 210000, log_updated_at = 211000, log_oid = ObjectId 12 14\<rparr>"
  have raced: "toggle_calls (Some raced_db) read_id (Date 2024 1 1)
       [(1, 200500, 201700), (1, 210500, 211700)] =
     ([Inr \<lparr>checked = False\<rparr>, Inr \<lparr>checked = False\<rparr>],
      Some (raced_db\<lparr>habitlog := [log_feb1, log_stray]\<rparr>))"
    by (simp add: toggle_eval example_defs)
  have run: "toggle_calls (Some example_db) read_id (Date 2024 1 1)
       [(1, 200500, 201700), (1, 210500, 211700)] =
     ([Inr \<lparr>checked = False\<rparr>, Inr \<lparr>checked = True\<rparr>],
      Some (example_db\<lparr>habitlog := [log_feb1, log_stray, ?new], inc := 15\<rparr>))"
    by (simp add: toggle_eval example_defs)
  have "log_jan1 \<in> set (habitlog example_db)" by (simp add: example_defs)
  moreover have "log_jan1 \<notin> set [log_feb1, log_stray, ?new]"
    by (simp add: example_defs)
  ultimately have differ: "set [log_feb1, log_stray, ?new] \<noteq> set (habitlog example_db)"
    by metis
  have before: "map log_value (filter (log_matches read_id ''2024-01-01'') (habitlog example_db)) = [5]"
    by (simp add: log_matches_def example_defs)
  have after: "map log_value (filter (log_matches read_id ''2024-01-01'')
      [log_feb1, log_stray, ?new]) = [1]"
    by (simp add: log_matches_def example_defs)
  from run differ before after raced show ?thesis by blast
qed

section \<open>Identifiers as strings\<close>












section \<open>Deleting a habit\<close>

lemma delete_habit_invalid:
  "ObjectId_of_str h = None \<Longrightarrow>
     delete_habit (Some db) h = (Inl (HTTPException 400 ''Invalid ID format''), Some db)"
  by (simp add: delete_habit_def coerce_objectid_def)

lemma delete_habit_missing:
  assumes "ObjectId_of_str h = Some i" and "i \<notin> oid ` set (habit db)"
  shows "delete_habit (Some db) h = (Inl (HTTPException 404 ''Habit not found''), Some db)"
proof -
  from assms(2) have none: "filter (\<lambda>d. oid d = i) (habit db) = []"
    by (auto simp: filter_empty_conv)
  then have "\<not> list_ex (\<lambda>d. oid d = i) (habit db)"
    by (auto simp: list_ex_iff filter_empty_conv)
  moreover from none have "delete_first (\<lambda>d. oid d = i) (habit db) = habit db"
    by (rule delete_first_no_match)
  ultimately show ?thesis using assms(1)
    by (simp add: delete_habit_def coerce_objectid_def delete_one_def)
qed

lemma delete_habit_found:
  assumes "ObjectId_of_str h = Some i" and "i \<in> oid ` set (habit db)"
  shows "delete_habit (Some db) h =
           (Inr \<lparr>ok = True\<rparr>,
            Some (db\<lparr>habit := delete_first (\<lambda>d. oid d = i) (habit db),
                    habitlog := filter (\<lambda>l. habit_id l \<noteq> h) (habitlog db)\<rparr>))"
proof -
  from assms(2) have "list_ex (\<lambda>d. oid d = i) (habit db)"
    by (auto simp: list_ex_iff)
  with assms(1) show ?thesis
    by (simp add: delete_habit_def coerce_objectid_def delete_one_def delete_many_def)
qed








section \<open>Querying logs\<close>

lemma get_logs_eq:
  "get_logs (Some db) h start end =
     (Inr (map log_out_of (filter (logs_filter h start end) (habitlog db))), Some db)"
  by (simp add: get_logs_def find_all_def)

lemma logs_filter_both:
  "s \<noteq> [] \<Longrightarrow> e \<noteq> [] \<Longrightarrow>
     logs_filter h (Some s) (Some e) = (\<lambda>l. habit_id l = h \<and> s \<le> log_day l \<and> log_day l \<le> e)"
  by (simp add: logs_filter_def truthy_def fun_eq_iff)

lemma logs_filter_unbounded:
  "start = None \<or> end = None \<or> start = Some [] \<or> end = Some [] \<Longrightarrow>
     logs_filter h start end = (\<lambda>l. habit_id l = h)"
  by (auto simp: logs_filter_def truthy_def fun_eq_iff)

text \<open>
  C6, as the code has it. The query returns the logs stored under the given string, in
  store order. When both bounds are given and neither is the empty string, only the
  logs with \<open>start \<le> day \<le> end\<close> in the lexicographic order of strings are returned;
  when a bound is absent or is the empty string, all logs of the habit are returned.
\<close>

theorem get_logs_range:
  "(\<forall>s e. start = Some s \<and> end = Some e \<and> s \<noteq> [] \<and> e \<noteq> [] \<longrightarrow>
      get_logs (Some db) h start end =
        (Inr (map log_out_of
           (filter (\<lambda>l. habit_id l = h \<and> s \<le> log_day l \<and> log_day l \<le> e) (habitlog db))),
         Some db)) \<and>
   (start = None \<or> end = None \<or> start = Some [] \<or> end = Some [] \<longrightarrow>
      get_logs (Some db) h start end =
        (Inr (map log_out_of (filter (\<lambda>l. habit_id l = h) (habitlog db))), Some db))"
proof (intro conjI allI impI)
  fix s e assume "start = Some s \<and> end = Some e \<and> s \<noteq> [] \<and> e \<noteq> []"
  then show "get_logs (Some db) h start end =
        (Inr (map log_out_of
           (filter (\<lambda>l. habit_id l = h \<and> s \<le> log_day l \<and> log_day l \<le> e) (habitlog db))),
         Some db)"
    by (simp add: get_logs_eq logs_filter_both)
next
  assume "start = None \<or> end = None \<or> start = Some [] \<or> end = Some []"
  then show "get_logs (Some db) h start end =
        (Inr (map log_out_of (filter (\<lambda>l. habit_id l = h) (habitlog db))), Some db)"
    by (simp only: get_logs_eq logs_filter_unbounded)
qed

theorem get_logs_range_witness:
  "get_logs (Some example_db) read_id (Some ''2024-01-01'') (Some ''2024-01-31'') =
     (Inr [log_out_of log_jan1], Some example_db) \<and>
   get_logs (Some example_db) read_id (Some ''2024-01-15'') None =
     (Inr [log_out_of log_jan1, log_out_of log_feb1], Some example_db)"
proof -
  have both: "Some ''2024-01-01'' = Some ''2024-01-01'' \<and> Some ''2024-01-31'' = Some ''2024-01-31''
                \<and> ''2024-01-01'' \<noteq> [] \<and> ''2024-01-31'' \<noteq> []" by simp
  note ranged = get_logs_range[of "Some ''2024-01-01''" "Some ''2024-01-31''" example_db read_id,
      THEN conjunct1, rule_format, OF both]
  have open_end: "Some ''2024-01-15'' = None \<or> (None :: string option) = None \<or>
      Some ''2024-01-15'' = Some [] \<or> (None :: string option) = Some []" by simp
  note unbounded = get_logs_range[of "Some ''2024-01-15''" None example_db read_id,
      THEN conjunct2, rule_format, OF open_end]
  have a: "get_logs (Some example_db) read_id (Some ''2024-01-01'') (Some ''2024-01-31'') =
     (Inr [log_out_of log_jan1], Some example_db)"
    unfolding ranged by (simp add: example_defs less_eq_char_def less_char_def)
  have b: "get_logs (Some example_db) read_id (Some ''2024-01-15'') None =
     (Inr [log_out_of log_jan1, log_out_of log_feb1], Some example_db)"
    unfolding unbounded by (simp add: example_defs)
  from a b show ?thesis by blast
qed

text \<open>
  C6 as stated fails when a bound is supplied as the empty string: with
  \<^verbatim>\<open>start=""\<close> and \<^verbatim>\<open>end="2024-01-31"\<close> both bounds are supplied, yet the log of the
  first of February, which lies outside the closed range, is returned.
\<close>

theorem get_logs_range_counterexample:
  "get_logs (Some example_db) read_id (Some '''') (Some ''2024-01-31'') =
     (Inr [log_out_of log_jan1, log_out_of log_feb1], Some example_db) \<and>
   log_day log_feb1 = ''2024-02-01'' \<and>
   \<not> ('''' \<le> log_day log_feb1 \<and> log_day log_feb1 \<le> ''2024-01-31'')"
  by (simp add: get_logs_eq logs_filter_def truthy_def example_defs
        less_eq_char_def less_char_def)



section \<open>Creating and listing habits\<close>

lemma insort_key_last:
  "\<forall>y\<in>set ys. f y < f a \<Longrightarrow> insort_key f a ys = ys @ [a]"
  by (induction ys) auto

lemma sort_key_strict_desc:
  "sorted_wrt (\<lambda>a b. f b < f a) ds \<Longrightarrow> sort_key f ds = rev ds"
  by (induction ds) (auto simp: insort_key_last)

lemma sort_created_desc_increasing:
  "sorted_wrt (\<lambda>a b. created_at a < created_at b) ds \<Longrightarrow> sort_created_desc ds = rev ds"
  unfolding sort_created_desc_def
  by (rule sort_key_strict_desc) (simp add: sorted_wrt_iff_nth_less)

lemma sort_created_desc_sorted:
  "sorted_wrt (\<lambda>a b. created_at b \<le> created_at a) (sort_created_desc ds)"
proof -
  have "sorted (map (\<lambda>d. - created_at d) (sort_created_desc ds))"
    by (simp add: sort_created_desc_def)
  then show ?thesis by (simp add: sorted_map)
qed

lemma mset_sort_created_desc: "mset (sort_created_desc ds) = mset ds"
  by (simp add: sort_created_desc_def)

lemma create_habit_eq:
  "encodable_habit h \<Longrightarrow>
   create_habit (Some db) h c u =
     (Inr \<lparr>name = name h, description = description h, color = color h,
           frequency = frequency h, days_of_week = days_of_week h,
           id_str = str_of_ObjectId (ObjectId 12 (inc db))\<rparr>,
      Some (db\<lparr>habit := habit db @
              [\<lparr>name = name h, description = description h, color = color h,
                frequency = frequency h, days_of_week = days_of_week h,
                created_at = bson_datetime c, updated_at = bson_datetime u,
                oid = ObjectId 12 (inc db)\<rparr>],
            inc := Suc (inc db)\<rparr>))"
  by (simp add: create_habit_def insert_habit_def HabitOut_of_def Let_def)

lemma create_habit_overflow:
  "\<not> encodable_habit h \<Longrightarrow> create_habit (Some db) h c u = (Inl internal_error, Some db)"
  by (simp add: create_habit_def insert_habit_def)

lemma list_habits_eq:
  "list_habits (Some db) = (Inr (map habit_out_of (sort_created_desc (habit db))), Some db)"
  by (simp add: list_habits_def)



lemma create_calls_three:
  assumes "encodable_habit A" "encodable_habit B" "encodable_habit C"
  shows "create_calls (Some db) [(A, cA, uA), (B, cB, uB), (C, cC, uC)] =
     ([Inr (habit_out_of
          \<lparr>name = name A, description = description A, color = color A,
            frequency = frequency A, days_of_week = days_of_week A,
            created_at = bson_datetime cA, updated_at = bson_datetime uA,
            oid = ObjectId 12 (inc db)\<rparr>),
       Inr (habit_out_of
          \<lparr>name = name B, description = description B, color = color B,
            frequency = frequency B, days_of_week = days_of_week B,
            created_at = bson_datetime cB, updated_at = bson_datetime uB,
            oid = ObjectId 12 (Suc (inc db))\<rparr>),
       Inr (habit_out_of
          \<lparr>name = name C, description = description C, color = color C,
            frequency = frequency C, days_of_week = days_of_week C,
            created_at = bson_datetime cC, updated_at = bson_datetime uC,
            oid = ObjectId 12 (Suc (Suc (inc db)))\<rparr>)],
      Some (db\<lparr>habit := habit db @
         [\<lparr>name = name A, description = description A, color = color A,
            frequency = frequency A, days_of_week = days_of_week A,
            created_at = bson_datetime cA, updated_at = bson_datetime uA,
            oid = ObjectId 12 (inc db)\<rparr>,
          \<lparr>name = name B, description = description B, color = color B,
            frequency = frequency B, days_of_week = days_of_week B,
            created_at = bson_datetime cB, updated_at = bson_datetime uB,
            oid = ObjectId 12 (Suc (inc db))\<rparr>,
          \<lparr>name = name C, description = description C, color = color C,
            frequency = frequency C, days_of_week = days_of_week C,
            created_at = bson_datetime cC, updated_at = bson_datetime uC,
            oid = ObjectId 12 (Suc (Suc (inc db)))\<rparr>],
        inc := Suc (Suc (Suc (inc db)))\<rparr>))"
  using assms by (simp add: create_habit_eq habit_out_of_def HabitOut_of_def)

text \<open>
  C7, as the code has it. The listing returns every stored habit, each once, in
  descending order of the stored \<^verbatim>\<open>created_at\<close>, and the empty sequence when no habit
  is stored. For habits A, B, C created in this order in a store without habits, at
  clock readings that fall into strictly increasing milliseconds, it returns exactly
  the three answers of the creations, C first, then B, then A.
\<close>

theorem list_habits_newest_first:
  "(\<exists>ds. mset ds = mset (habit db) \<and>
          sorted_wrt (\<lambda>a b. created_at b \<le> created_at a) ds \<and>
          list_habits (Some db) = (Inr (map habit_out_of ds), Some db)) \<and>
   (habit db = [] \<longrightarrow> list_habits (Some db) = (Inr [], Some db)) \<and>
   (habit db = [] \<and> encodable_habit A \<and> encodable_habit B \<and> encodable_habit C \<and>
    bson_datetime cA < bson_datetime cB \<and> bson_datetime cB < bson_datetime cC \<longrightarrow>
      (\<exists>a b c s.
          create_calls (Some db) [(A, cA, uA), (B, cB, uB), (C, cC, uC)] =
            ([Inr a, Inr b, Inr c], s) \<and>
          list_habits s = (Inr [c, b, a], s)))"
proof (intro conjI impI)
  show "\<exists>ds. mset ds = mset (habit db) \<and>
          sorted_wrt (\<lambda>a b. created_at b \<le> created_at a) ds \<and>
          list_habits (Some db) = (Inr (map habit_out_of ds), Some db)"
    using mset_sort_created_desc[of "habit db"] sort_created_desc_sorted[of "habit db"]
      list_habits_eq[of db] by blast
next
  assume "habit db = []"
  then show "list_habits (Some db) = (Inr [], Some db)"
    by (simp add: list_habits_eq sort_created_desc_def)
next
  assume h: "habit db = [] \<and> encodable_habit A \<and> encodable_habit B \<and> encodable_habit C \<and>
    bson_datetime cA < bson_datetime cB \<and> bson_datetime cB < bson_datetime cC"
  let ?dA = "\<lparr>name = name A, description = description A, color = color A,
               frequency = frequency A, days_of_week = days_of_week A,
               created_at = bson_datetime cA, updated_at = bson_datetime uA,
               oid = ObjectId 12 (inc db)\<rparr>"
  let ?dB = "\<lparr>name = name B, description = description B, color = color B,
               frequency = frequency B, days_of_week = days_of_week B,
               created_at = bson_datetime cB, updated_at = bson_datetime uB,
               oid = ObjectId 12 (Suc (inc db))\<rparr>"
  let ?dC = "\<lparr>name = name C, description = description C, color = color C,
               frequency = frequency C, days_of_week = days_of_week C,
               created_at = bson_datetime cC, updated_at = bson_datetime uC,
               oid = ObjectId 12 (Suc (Suc (inc db)))\<rparr>"
  let ?db3 = "db\<lparr>habit := habit db @ [?dA, ?dB, ?dC], inc := Suc (Suc (Suc (inc db)))\<rparr>"
  from h have run: "create_calls (Some db) [(A, cA, uA), (B, cB, uB), (C, cC, uC)] =
      ([Inr (habit_out_of ?dA), Inr (habit_out_of ?dB), Inr (habit_out_of ?dC)], Some ?db3)"
    by (simp only: create_calls_three)
  have "sorted_wrt (\<lambda>a b. created_at a < created_at b) [?dA, ?dB, ?dC]"
    using h by simp
  then have "sort_created_desc [?dA, ?dB, ?dC] = rev [?dA, ?dB, ?dC]"
    by (rule sort_created_desc_increasing)
  with h have l: "list_habits (Some ?db3) =
      (Inr [habit_out_of ?dC, habit_out_of ?dB, habit_out_of ?dA], Some ?db3)"
    by (simp add: list_habits_eq)
  from run l
  show "\<exists>a b c s.
          create_calls (Some db) [(A, cA, uA), (B, cB, uB), (C, cC, uC)] =
            ([Inr a, Inr b, Inr c], s) \<and>
          list_habits s = (Inr [c, b, a], s)"
    by blast
qed

theorem list_habits_newest_first_witness:
  "habit empty_db = [] \<and> bson_datetime 1000 < bson_datetime 2000 \<and>
   bson_datetime 2000 < bson_datetime 3500 \<and>
   list_habits (Some empty_db) = (Inr [], Some empty_db) \<and>
   (\<exists>a b c s.
      create_calls (Some empty_db)
        [(read_in, 1000, 1000), (run_in, 2000, 2000), (sleep_in, 3500, 3500)] =
        ([Inr a, Inr b, Inr c], s) \<and>
      list_habits s = (Inr [c, b, a], s) \<and>
      map name [c, b, a] = [''Sleep'', ''Run'', ''Read''])"
proof -
  have e: "habit empty_db = []" by (simp add: empty_db_def)
  have enc: "encodable_habit read_in" "encodable_habit run_in" "encodable_habit sleep_in"
    by (simp_all add: encodable_habit_def int64_def read_in_def run_in_def sleep_in_def)
  have lt: "bson_datetime 1000 < bson_datetime 2000" "bson_datetime 2000 < bson_datetime 3500"
    by (simp_all add: bson_datetime_def)
  note all = list_habits_newest_first[of empty_db read_in run_in sleep_in 1000 2000 3500
      1000 2000 3500]
  note none = all[THEN conjunct2, THEN conjunct1, rule_format, OF e]
  from all e enc lt
  obtain a b c s where
    run: "create_calls (Some empty_db)
        [(read_in, 1000, 1000), (run_in, 2000, 2000), (sleep_in, 3500, 3500)] =
        ([Inr a, Inr b, Inr c], s)" and
    l: "list_habits s = (Inr [c, b, a], s)"
    by blast
  from run[unfolded create_calls_three[OF enc]]
  have "name a = ''Read''" "name b = ''Run''" "name c = ''Sleep''"
    by (auto simp: habit_out_of_def HabitOut_of_def read_in_def run_in_def sleep_in_def)
  then have nm: "map name [c, b, a] = [''Sleep'', ''Run'', ''Read'']" by simp
  have "\<exists>a b c s.
      create_calls (Some empty_db)
        [(read_in, 1000, 1000), (run_in, 2000, 2000), (sleep_in, 3500, 3500)] =
        ([Inr a, Inr b, Inr c], s) \<and>
      list_habits s = (Inr [c, b, a], s) \<and>
      map name [c, b, a] = [''Sleep'', ''Run'', ''Read'']"
    apply (rule exI[of _ a], rule exI[of _ b], rule exI[of _ c], rule exI[of _ s])
    apply (intro conjI)
      apply (rule run, rule l, rule nm)
    done
  with e lt none show ?thesis by (intro conjI)
qed

text \<open>
  C7 as stated fails when the creations fall into one millisecond: the store keeps
  the same \<^verbatim>\<open>created_at\<close> for the three habits, the sort has nothing to order them
  by, and they are listed as they lie in the store, A first.
\<close>

theorem list_habits_newest_first_counterexample:
  "map (map_sum id name)
     (fst (create_calls (Some empty_db) [(read_in, 1, 1), (run_in, 2, 2), (sleep_in, 3, 3)]))
     = [Inr ''Read'', Inr ''Run'', Inr ''Sleep''] \<and>
   map_sum id (map name)
     (fst (list_habits
        (snd (create_calls (Some empty_db) [(read_in, 1, 1), (run_in, 2, 2), (sleep_in, 3, 3)]))))
     = Inr [''Read'', ''Run'', ''Sleep'']"
proof -
  have enc: "encodable_habit read_in" "encodable_habit run_in" "encodable_habit sleep_in"
    by (simp_all add: encodable_habit_def int64_def read_in_def run_in_def sleep_in_def)
  show ?thesis
    unfolding create_calls_three[OF enc]
    by (simp add: list_habits_def sort_created_desc_def bson_datetime_def habit_out_of_def
          HabitOut_of_def empty_db_def read_in_def run_in_def sleep_in_def)
qed

section \<open>Every handler keeps the identifiers of the store unique\<close>

lemma set_delete_first: "set (delete_first P xs) \<subseteq> set xs"
  by (induction xs) auto

lemma distinct_map_delete_first:
  "distinct (map f xs) \<Longrightarrow> distinct (map f (delete_first P xs))"
proof (induction xs)
  case Nil
  then show ?case by simp
next
  case (Cons a xs)
  then show ?case using set_delete_first[of P xs] by auto
qed

lemma list_all_delete_first: "list_all Q xs \<Longrightarrow> list_all Q (delete_first P xs)"
  using set_delete_first[of P xs] by (auto simp: list_all_iff)

lemma list_all_filter_keep: "list_all Q xs \<Longrightarrow> list_all Q (filter P xs)"
  by (auto simp: list_all_iff)

lemma list_all_less_Suc:
  "list_all (\<lambda>x. nbytes (f x) = 12 \<and> binary (f x) < n) xs \<Longrightarrow>
     list_all (\<lambda>x. nbytes (f x) = 12 \<and> binary (f x) < Suc n) xs"
  by (auto simp: list_all_iff)

lemma fresh_ObjectId:
  assumes "list_all (\<lambda>x. nbytes (f x) = 12 \<and> binary (f x) < n) xs"
  shows "ObjectId 12 n \<notin> f ` set xs"
proof
  assume "ObjectId 12 n \<in> f ` set xs"
  then obtain x where x: "x \<in> set xs" and "f x = ObjectId 12 n" by auto
  then have "binary (f x) = n" by simp
  moreover from assms x have "binary (f x) < n" by (simp add: list_all_iff)
  ultimately show False by simp
qed

lemma wf_empty_db: "wf_db empty_db"
  by (simp add: wf_db_def empty_db_def)

lemma wf_db_create_habit:
  assumes "wf_db db" and "create_habit (Some db) h c u = (r, Some db')"
  shows "wf_db db'"
proof (cases "encodable_habit h")
  case False
  with assms show ?thesis by (simp add: create_habit_overflow)
next
  case True
  from assms(2)[unfolded create_habit_eq[OF True]]
  have db': "db' = db\<lparr>habit := habit db @
              [\<lparr>name = name h, description = description h, color = color h,
                frequency = frequency h, days_of_week = days_of_week h,
                created_at = bson_datetime c, updated_at = bson_datetime u,
                oid = ObjectId 12 (inc db)\<rparr>],
            inc := Suc (inc db)\<rparr>"
    by simp
  from assms(1) have "ObjectId 12 (inc db) \<notin> oid ` set (habit db)"
    by (simp add: wf_db_def fresh_ObjectId)
  with assms(1) show ?thesis unfolding db'
    by (simp add: wf_db_def list_all_less_Suc)
qed

lemma wf_db_toggle_log:
  assumes "wf_db db" and "toggle_log (Some db) h p c u = (r, Some db')"
  shows "wf_db db'"
proof (cases "find_one (log_matches h (isoformat (day p))) (habitlog db)")
  case None
  show ?thesis
  proof (cases "int64 (val p)")
    case False
    with assms None show ?thesis by (simp add: toggle_overflow)
  next
    case True
    from assms(2)[unfolded toggle_absent[OF None True]]
    have db': "db' = db\<lparr>habitlog := habitlog db @
                    [\<lparr>habit_id = h, log_day = isoformat (day p), log_value = val p,
                      log_created_at = bson_datetime c, log_updated_at = bson_datetime u,
                      log_oid = ObjectId 12 (inc db)\<rparr>],
                  inc := Suc (inc db)\<rparr>"
      by simp
    from assms(1) have "ObjectId 12 (inc db) \<notin> log_oid ` set (habitlog db)"
      by (simp add: wf_db_def fresh_ObjectId)
    with assms(1) show ?thesis unfolding db'
      by (simp add: wf_db_def list_all_less_Suc)
  qed
next
  case (Some l)
  with assms(2) have "db' = db\<lparr>habitlog :=
      delete_first (\<lambda>x. log_oid x = log_oid l) (habitlog db)\<rparr>"
    by (simp add: toggle_log_def delete_one_def)
  with assms(1) show ?thesis
    by (simp add: wf_db_def distinct_map_delete_first list_all_delete_first)
qed

lemma wf_db_delete_habit:
  assumes "wf_db db" and "delete_habit (Some db) h = (r, Some db')"
  shows "wf_db db'"
proof (cases "ObjectId_of_str h")
  case None
  with assms show ?thesis by (simp add: delete_habit_invalid)
next
  case (Some i)
  show ?thesis
  proof (cases "i \<in> oid ` set (habit db)")
    case False
    with Some assms show ?thesis by (simp add: delete_habit_missing)
  next
    case True
    from assms(2)[unfolded delete_habit_found[OF Some True]]
    have "db' = db\<lparr>habit := delete_first (\<lambda>d. oid d = i) (habit db),
                    habitlog := filter (\<lambda>l. habit_id l \<noteq> h) (habitlog db)\<rparr>"
      by simp
    with assms(1) show ?thesis
      by (simp add: wf_db_def distinct_map_delete_first list_all_delete_first
            distinct_map_filter list_all_filter_keep)
  qed
qed
end
